theory Spec2Isabelle
  imports Complex_Main "HOL-Library.Log_Nat"
begin

section \<open>The orbit camera controller of main.ts\<close>

text \<open>
  The module-scoped variables of main.ts that the pointer handlers and the frame
  callback read and write: \<open>isDragging\<close>, \<open>previousMousePosition\<close>, \<open>spherical\<close>
  (the rendered pose) and \<open>targetSpherical\<close> (the pose the handlers set).
  A \<open>THREE.Spherical\<close> has the three number fields radius, phi and theta.

  In the handlers JavaScript numbers are modelled as mathematical reals: rounding,
  infinities and NaN are outside that model; the clamps hold with or without rounding.
  The damping of the frame callback depends on rounding, so the callback is modelled a
  second time below, in binary64 arithmetic. \<open>window.innerHeight\<close> is read by
  \<open>onMouseMove\<close> at the time of the event, so it is an argument of the handler; the
  division by it is the real division, which agrees with the source for a positive
  height only.
\<close>

record Spherical =
  radius :: real
  phi :: real
  theta :: real

record MousePosition =
  pos_x :: real
  pos_y :: real

record controller =
  isDragging :: bool
  previousMousePosition :: MousePosition
  spherical :: Spherical
  targetSpherical :: Spherical

definition dampingFactor :: real where
  "dampingFactor = 0.10"

definition rotationSpeed :: real where
  "rotationSpeed = 2"

definition minPolarAngle :: real where
  "minPolarAngle = 0.05"

definition maxPolarAngle :: real where
  "maxPolarAngle = pi - 0.05"

definition zoomSpeed :: real where
  "zoomSpeed = 0.020"

definition minRadius :: real where
  "minRadius = 1"

definition maxRadius :: real where
  "maxRadius = 20"

text \<open>
  \<open>THREE.MathUtils.lerp(x, y, t)\<close> belongs to the rendering engine, not to this
  repository; the engine computes \<open>(1 - t) * x + t * y\<close>.
\<close>

definition lerp :: "real \<Rightarrow> real \<Rightarrow> real \<Rightarrow> real" where
  "lerp x y t = (1 - t) * x + t * y"

text \<open>
  \<open>animate\<close>: the three assignments to \<open>spherical\<close>. What follows them in the source
  (camera position, lookAt, render) writes to the engine only.
\<close>

definition animate :: "controller \<Rightarrow> controller" where
  "animate s =
     (let sph = spherical s; tgt = targetSpherical s;
          sph1 = sph\<lparr>theta := lerp (theta sph) (theta tgt) dampingFactor\<rparr>;
          sph2 = sph1\<lparr>phi := lerp (phi sph1) (phi tgt) dampingFactor\<rparr>;
          sph3 = sph2\<lparr>radius := lerp (radius sph2) (radius tgt) dampingFactor\<rparr>
      in s\<lparr>spherical := sph3\<rparr>)"

text \<open>\<open>onMouseDown\<close>: \<open>event.button\<close>, \<open>event.clientX\<close>, \<open>event.clientY\<close>.\<close>

definition onMouseDown :: "int \<Rightarrow> real \<Rightarrow> real \<Rightarrow> controller \<Rightarrow> controller" where
  "onMouseDown button clientX clientY s =
     (if button = 0
      then s\<lparr>isDragging := True,
             previousMousePosition := \<lparr>pos_x = clientX, pos_y = clientY\<rparr>\<rparr>
      else s)"

text \<open>\<open>onMouseMove\<close>: \<open>window.innerHeight\<close>, \<open>event.clientX\<close>, \<open>event.clientY\<close>.\<close>

definition onMouseMove :: "real \<Rightarrow> real \<Rightarrow> real \<Rightarrow> controller \<Rightarrow> controller" where
  "onMouseMove innerHeight clientX clientY s =
     (if \<not> isDragging s then s
      else
        let deltaX = clientX - pos_x (previousMousePosition s);
            deltaY = clientY - pos_y (previousMousePosition s);
            tgt = targetSpherical s;
            tgt1 = tgt\<lparr>theta := theta tgt - deltaX * rotationSpeed * (pi / innerHeight)\<rparr>;
            tgt2 = tgt1\<lparr>phi := phi tgt1 - deltaY * rotationSpeed * (pi / innerHeight)\<rparr>;
            tgt3 = tgt2\<lparr>phi := max minPolarAngle (min maxPolarAngle (phi tgt2))\<rparr>
        in s\<lparr>previousMousePosition := \<lparr>pos_x = clientX, pos_y = clientY\<rparr>,
             targetSpherical := tgt3\<rparr>)"

definition onMouseUp :: "controller \<Rightarrow> controller" where
  "onMouseUp s = s\<lparr>isDragging := False\<rparr>"

text \<open>\<open>onMouseWheel\<close>: \<open>event.deltaY\<close>.\<close>

definition onMouseWheel :: "real \<Rightarrow> controller \<Rightarrow> controller" where
  "onMouseWheel deltaY s =
     (let tgt = targetSpherical s;
          tgt1 = tgt\<lparr>radius := radius tgt + deltaY * zoomSpeed\<rparr>;
          tgt2 = tgt1\<lparr>radius := max minRadius (min maxRadius (radius tgt1))\<rparr>
      in s\<lparr>targetSpherical := tgt2\<rparr>)"

text \<open>
  The listeners registered by \<open>init\<close> and the animation loop, as the events the
  controller can receive, each with the values the handler reads. mouseup and
  mouseleave both run \<open>onMouseUp\<close>.
\<close>

datatype event =
    MouseDown int real real
  | MouseMove real real real
  | MouseUp
  | MouseLeave
  | Wheel real
  | Frame

fun handle :: "controller \<Rightarrow> event \<Rightarrow> controller" where
  "handle s (MouseDown button x y) = onMouseDown button x y s"
| "handle s (MouseMove innerHeight x y) = onMouseMove innerHeight x y s"
| "handle s MouseUp = onMouseUp s"
| "handle s MouseLeave = onMouseUp s"
| "handle s (Wheel deltaY) = onMouseWheel deltaY s"
| "handle s Frame = animate s"

definition run :: "controller \<Rightarrow> event list \<Rightarrow> controller" where
  "run s es = foldl handle s es"

text \<open>The viewport heights for which the real division is the source's division.\<close>

fun viewport_positive :: "event \<Rightarrow> bool" where
  "viewport_positive (MouseMove innerHeight x y) = (0 < innerHeight)"
| "viewport_positive _ = True"

text \<open>The clamps of the two handlers, as a predicate on a pose.\<close>

definition in_clamps :: "Spherical \<Rightarrow> bool" where
  "in_clamps p \<longleftrightarrow>
     minPolarAngle \<le> phi p \<and> phi p \<le> maxPolarAngle \<and>
     minRadius \<le> radius p \<and> radius p \<le> maxRadius"

text \<open>Both poses of the controller within the clamps.\<close>

definition poses_ok :: "controller \<Rightarrow> bool" where
  "poses_ok s \<longleftrightarrow> in_clamps (spherical s) \<and> in_clamps (targetSpherical s)"

text \<open>A sequence of mousemove events, each with its viewport height and position.\<close>

definition moves :: "(real \<times> real \<times> real) list \<Rightarrow> event list" where
  "moves ms = map (\<lambda>(h, x, y). MouseMove h x y) ms"

text \<open>A controller at rest at a pose: no drag, and the rendered pose on its target.\<close>

definition at_rest :: "real \<Rightarrow> real \<Rightarrow> real \<Rightarrow> controller" where
  "at_rest r p t =
     \<lparr>isDragging = False, previousMousePosition = \<lparr>pos_x = 0, pos_y = 0\<rparr>,
      spherical = \<lparr>radius = r, phi = p, theta = t\<rparr>,
      targetSpherical = \<lparr>radius = r, phi = p, theta = t\<rparr>\<rparr>"

text \<open>
  The controller when \<open>init\<close> registers the listeners. \<open>init\<close> sets the camera to
  (0, 2, 5), \<open>spherical.setFromVector3\<close> (engine code) turns a non-zero position
  \<open>(x, y, z)\<close> into the radius \<open>sqrt (x * x + y * y + z * z)\<close>, the azimuth
  \<open>atan2 (x, z)\<close>, here 0, and the polar angle \<open>acos (y / radius)\<close>, and
  \<open>targetSpherical.copy\<close> gives the target the same pose.
\<close>

definition controller_init :: controller where
  "controller_init =
     \<lparr>isDragging = False, previousMousePosition = \<lparr>pos_x = 0, pos_y = 0\<rparr>,
      spherical = \<lparr>radius = sqrt 29, phi = arccos (2 / sqrt 29), theta = 0\<rparr>,
      targetSpherical = \<lparr>radius = sqrt 29, phi = arccos (2 / sqrt 29), theta = 0\<rparr>\<rparr>"

section \<open>The frame callback in binary64 arithmetic\<close>


text \<open>
  The binary exponent of \<open>z\<close>: the \<open>e\<close> with \<open>2 ^ e \<le> \<bar>z\<bar> < 2 ^ (e + 1)\<close>, read off the bit
  length of \<open>\<bar>z\<bar>\<close> scaled to an integer, and never below -1022, where the subnormal
  numbers begin. A significand has 53 bits, so neighbouring binary64 values near \<open>z\<close>
  are \<open>2 ^ (e - 52)\<close> apart.
\<close>

definition exponent64 :: "real \<Rightarrow> int" where
  "exponent64 z = max (bitlen \<lfloor>\<bar>z\<bar> * 2 ^ 1074\<rfloor> - 1075) (- 1022)"






section \<open>loadModel and the scene of main.ts\<close>

text \<open>
  The objects main.ts puts into the scene: the checkerboard plane, and the
  \<open>gltf.scene\<close> groups the loader returns, each a new object, named by a number.
  \<open>children\<close> is \<open>scene.children\<close>. \<open>Object3D.add\<close> and \<open>Object3D.remove\<close> belong to
  the rendering engine, not to this repository: \<open>remove\<close> takes the object out of
  the children if it is there, \<open>add\<close> takes the object from its parent and pushes it
  to the end of the children.
\<close>

datatype object3d = Plane | Gltf nat

definition scene_remove :: "object3d \<Rightarrow> object3d list \<Rightarrow> object3d list" where
  "scene_remove x cs = remove1 x cs"

definition scene_add :: "object3d \<Rightarrow> object3d list \<Rightarrow> object3d list" where
  "scene_add x cs = remove1 x cs @ [x]"

text \<open>How the promise of \<open>loader.loadAsync(modelUrl)\<close> settles, and how an async
  function's own promise does.\<close>

datatype load_result = Resolved nat | Failed string

datatype settlement = Fulfilled | Rejected string

text \<open>
  The module state \<open>loadModel\<close> works on: the variable \<open>diamond\<close> (null is \<open>None\<close>),
  the children of \<open>scene\<close> and the calls of \<open>console.error\<close> (model url and error).
  An async function runs to its \<open>await\<close> when called and the rest when the awaited
  promise settles, so the state also holds the calls of \<open>loadModel\<close> that wait at the
  \<open>await\<close> (\<open>suspended\<close>: number of the call and its \<open>modelUrl\<close>), the promises of
  the calls that have finished, and the number of calls made so far, which names the
  next call. That number is the model's name for a call; the source has no such counter.
\<close>

record app =
  diamond :: "nat option"
  children :: "object3d list"
  console :: "(string \<times> string) list"
  suspended :: "(nat \<times> string) list"
  promises :: "(nat \<times> settlement) list"
  issued :: nat

text \<open>Statements that change the state and may throw: the thrown value is \<open>Inl\<close>,
  and the state changes made before the throw stay made.\<close>

type_synonym 'a js = "app \<Rightarrow> (string + 'a) \<times> app"

definition js_bind :: "'a js \<Rightarrow> ('a \<Rightarrow> 'b js) \<Rightarrow> 'b js" where
  "js_bind m f s = (case m s of (Inl e, s') \<Rightarrow> (Inl e, s') | (Inr v, s') \<Rightarrow> f v s')"

definition try_catch :: "'a js \<Rightarrow> (string \<Rightarrow> 'a js) \<Rightarrow> 'a js" where
  "try_catch m h s = (case m s of (Inl e, s') \<Rightarrow> h e s' | (Inr v, s') \<Rightarrow> (Inr v, s'))"

definition await :: "load_result \<Rightarrow> nat js" where
  "await r s = (case r of Resolved g \<Rightarrow> (Inr g, s) | Failed e \<Rightarrow> (Inl e, s))"

definition assign_diamond :: "nat \<Rightarrow> unit js" where
  "assign_diamond g s = (Inr (), s\<lparr>diamond := Some g\<rparr>)"

definition scene_add_js :: "object3d \<Rightarrow> unit js" where
  "scene_add_js x s = (Inr (), s\<lparr>children := scene_add x (children s)\<rparr>)"

definition console_error :: "string \<Rightarrow> string \<Rightarrow> unit js" where
  "console_error modelUrl error s = (Inr (), s\<lparr>console := console s @ [(modelUrl, error)]\<rparr>)"

text \<open>
  \<open>loadModel\<close> up to its \<open>await\<close>: the old model is taken out of the scene, the load
  is started and the call is suspended.
\<close>

definition loadModel_call :: "string \<Rightarrow> app \<Rightarrow> app" where
  "loadModel_call modelUrl s =
     (let s1 = (case diamond s of
                  Some d \<Rightarrow> s\<lparr>children := scene_remove (Gltf d) (children s)\<rparr>
                | None \<Rightarrow> s)
      in s1\<lparr>suspended := suspended s1 @ [(issued s1, modelUrl)], issued := issued s1 + 1\<rparr>)"

text \<open>
  The \<open>try\<close> statement of \<open>loadModel\<close>, run when the load has settled with \<open>r\<close>.
  The traversal that gives every mesh of the loaded group the shared material changes
  neither \<open>diamond\<close> nor the children of the scene, and is left out;
  \<open>scene.add(diamond)\<close> reads the group that the statement before it assigned.
\<close>

definition loadModel_try :: "string \<Rightarrow> load_result \<Rightarrow> unit js" where
  "loadModel_try modelUrl r =
     try_catch
       (js_bind (await r) (\<lambda>g. js_bind (assign_diamond g) (\<lambda>_. scene_add_js (Gltf g))))
       (\<lambda>error. console_error modelUrl error)"

definition promise_of :: "string + unit \<Rightarrow> settlement" where
  "promise_of res = (case res of Inl e \<Rightarrow> Rejected e | Inr _ \<Rightarrow> Fulfilled)"

text \<open>The rest of call \<open>i\<close> once its load has settled; nothing happens for a call
  that is not suspended.\<close>

definition loadModel_resume :: "nat \<Rightarrow> load_result \<Rightarrow> app \<Rightarrow> app" where
  "loadModel_resume i r s =
     (case map_of (suspended s) i of
        None \<Rightarrow> s
      | Some modelUrl \<Rightarrow>
          (case loadModel_try modelUrl r (s\<lparr>suspended := filter (\<lambda>c. fst c \<noteq> i) (suspended s)\<rparr>) of
             (res, s') \<Rightarrow> s'\<lparr>promises := promises s' @ [(i, promise_of res)]\<rparr>))"

datatype app_event = LoadModel string | Settle nat load_result

fun app_handle :: "app \<Rightarrow> app_event \<Rightarrow> app" where
  "app_handle s (LoadModel modelUrl) = loadModel_call modelUrl s"
| "app_handle s (Settle i r) = loadModel_resume i r s"

definition app_run :: "app \<Rightarrow> app_event list \<Rightarrow> app" where
  "app_run s es = foldl app_handle s es"

text \<open>The state in which \<open>init\<close> makes the first call of \<open>loadModel\<close>: the plane is
  in the scene and \<open>diamond\<close> is null.\<close>

definition app_init :: app where
  "app_init = \<lparr>diamond = None, children = [Plane], console = [], suspended = [],
               promises = [], issued = 0\<rparr>"

fun is_gltf :: "object3d \<Rightarrow> bool" where
  "is_gltf (Gltf g) = True"
| "is_gltf Plane = False"

definition models_attached :: "app \<Rightarrow> object3d list" where
  "models_attached s = filter is_gltf (children s)"

text \<open>Runs in which \<open>loadModel\<close> is called only when no earlier call is suspended.\<close>

fun sequential :: "app \<Rightarrow> app_event list \<Rightarrow> bool" where
  "sequential s [] = True"
| "sequential s (LoadModel u # es) = (suspended s = [] \<and> sequential (loadModel_call u s) es)"
| "sequential s (Settle i r # es) = sequential (loadModel_resume i r s) es"

text \<open>What calls that never overlap keep: with no call suspended the models in the scene are
  none or \<open>diamond\<close> alone, with one call suspended there is none.\<close>

definition one_model :: "app \<Rightarrow> bool" where
  "one_model s \<longleftrightarrow>
     (case suspended s of
        [] \<Rightarrow> models_attached s = [] \<or>
              (case diamond s of Some d \<Rightarrow> models_attached s = [Gltf d] | None \<Rightarrow> False)
      | [c] \<Rightarrow> models_attached s = []
      | _ \<Rightarrow> False)"

text \<open>Every suspended call has a number below the number of calls made.\<close>

definition calls_named :: "app \<Rightarrow> bool" where
  "calls_named s \<longleftrightarrow> (\<forall>c \<in> set (suspended s). fst c < issued s)"

text \<open>No promise returned by \<open>loadModel\<close> has been rejected.\<close>

definition all_fulfilled :: "app \<Rightarrow> bool" where
  "all_fulfilled s \<longleftrightarrow> list_all (\<lambda>p. snd p = Fulfilled) (promises s)"

text \<open>The definitions that evaluate a run of \<open>loadModel\<close> calls and settlements.\<close>

lemmas app_eval = app_run_def app_init_def loadModel_call_def loadModel_resume_def
  loadModel_try_def try_catch_def js_bind_def await_def assign_diamond_def scene_add_js_def
  console_error_def promise_of_def scene_add_def scene_remove_def models_attached_def

section \<open>Pointer moves outside a drag\<close>

lemma onMouseMove_inactive:
  "\<not> isDragging s \<Longrightarrow> onMouseMove h x y s = s"
  by (simp add: onMouseMove_def)

lemma run_moves_inactive:
  "\<not> isDragging s \<Longrightarrow> run s (moves ms) = s"
  by (induction ms arbitrary: s) (auto simp: run_def moves_def onMouseMove_inactive)

text \<open>
  C9: while dragging is inactive, a sequence of \<open>onMouseMove\<close> calls of any length
  leaves the target pose as it was, after every call of the sequence (every prefix
  \<open>take n ms\<close>); the whole controller state is in fact unchanged.
\<close>

theorem C9_moves_while_inactive:
  assumes "\<not> isDragging s"
  shows "targetSpherical (run s (moves (take n ms))) = targetSpherical s \<and>
         run s (moves ms) = s"
  using assms by (simp add: run_moves_inactive)

theorem C9_moves_while_inactive_witness:
  "\<not> isDragging
       \<lparr>isDragging = False, previousMousePosition = \<lparr>pos_x = 0, pos_y = 0\<rparr>,
        spherical = \<lparr>radius = 5, phi = 1, theta = 0\<rparr>,
        targetSpherical = \<lparr>radius = 5, phi = 1, theta = 0\<rparr>\<rparr> \<and>
   targetSpherical
     (run \<lparr>isDragging = False, previousMousePosition = \<lparr>pos_x = 0, pos_y = 0\<rparr>,
           spherical = \<lparr>radius = 5, phi = 1, theta = 0\<rparr>,
           targetSpherical = \<lparr>radius = 5, phi = 1, theta = 0\<rparr>\<rparr>
          (moves (take 1 [(800, 150, 80), (800, 200, 60)])))
     = \<lparr>radius = 5, phi = 1, theta = 0\<rparr>"
  using C9_moves_while_inactive
    [of "\<lparr>isDragging = False, previousMousePosition = \<lparr>pos_x = 0, pos_y = 0\<rparr>,
          spherical = \<lparr>radius = 5, phi = 1, theta = 0\<rparr>,
          targetSpherical = \<lparr>radius = 5, phi = 1, theta = 0\<rparr>\<rparr>"
        1 "[(800, 150, 80), (800, 200, 60)]"]
  by simp

section \<open>The clamps as an invariant\<close>

lemma clamps_nonempty: "minPolarAngle \<le> maxPolarAngle" "minRadius \<le> maxRadius"
  using pi_ge_two by (simp_all add: minPolarAngle_def maxPolarAngle_def minRadius_def maxRadius_def)

lemma lerp_between:
  assumes "lo \<le> x" "x \<le> hi" "lo \<le> y" "y \<le> hi"
  shows "lo \<le> lerp x y dampingFactor \<and> lerp x y dampingFactor \<le> hi"
proof -
  have "lerp x y dampingFactor = (9 * x + y) / 10"
    by (simp add: lerp_def dampingFactor_def field_simps)
  with assms show ?thesis by simp
qed

lemma animate_ok: "poses_ok s \<Longrightarrow> poses_ok (animate s)"
  unfolding poses_ok_def in_clamps_def animate_def Let_def
  using lerp_between [of minPolarAngle "phi (spherical s)" maxPolarAngle "phi (targetSpherical s)"]
    lerp_between [of minRadius "radius (spherical s)" maxRadius "radius (targetSpherical s)"]
  by simp

lemma onMouseMove_ok: "poses_ok s \<Longrightarrow> poses_ok (onMouseMove h x y s)"
  using clamps_nonempty(1)
  unfolding poses_ok_def in_clamps_def onMouseMove_def Let_def
  by (simp add: max_def min_def)

lemma onMouseWheel_ok: "poses_ok s \<Longrightarrow> poses_ok (onMouseWheel d s)"
  using clamps_nonempty(2)
  unfolding poses_ok_def in_clamps_def onMouseWheel_def Let_def
  by (simp add: max_def min_def)

lemma onMouseDown_ok: "poses_ok s \<Longrightarrow> poses_ok (onMouseDown b x y s)"
  by (simp add: poses_ok_def onMouseDown_def)

lemma onMouseUp_ok: "poses_ok s \<Longrightarrow> poses_ok (onMouseUp s)"
  by (simp add: poses_ok_def onMouseUp_def)

lemma handle_ok: "poses_ok s \<Longrightarrow> poses_ok (handle s e)"
  by (cases e) (simp_all add: animate_ok onMouseMove_ok onMouseWheel_ok onMouseDown_ok onMouseUp_ok)

lemma run_ok: "poses_ok s \<Longrightarrow> poses_ok (run s es)"
  by (induction es arbitrary: s) (simp_all add: run_def handle_ok)

lemma sqrt_29_bounds: "4 \<le> sqrt 29" "sqrt 29 \<le> 20"
  by (rule real_le_rsqrt, simp) (rule real_le_lsqrt, simp_all)

lemma init_phi_bounds: "1 / 2 \<le> arccos (2 / sqrt 29)" "arccos (2 / sqrt 29) \<le> pi / 2"
proof -
  have q: "0 \<le> 2 / sqrt 29" "2 / sqrt 29 \<le> 1 / 2"
    using sqrt_29_bounds(1) by (simp_all add: field_simps)
  have "arccos (1 / 2) \<le> arccos (2 / sqrt 29)"
    using q by (intro arccos_le_mono [THEN iffD2]) simp_all
  moreover have "arccos (1 / 2) = pi / 3"
    using arccos_cos [of "pi / 3"] by (simp add: cos_60)
  moreover have "1 / 2 \<le> pi / 3" using pi_ge_two by simp
  ultimately show "1 / 2 \<le> arccos (2 / sqrt 29)" by simp
  show "arccos (2 / sqrt 29) \<le> pi / 2"
    using q by (intro arccos_le_pi2) simp_all
qed

lemma controller_init_ok: "poses_ok controller_init"
  using sqrt_29_bounds init_phi_bounds pi_ge_two
  by (simp add: poses_ok_def in_clamps_def controller_init_def minPolarAngle_def
      maxPolarAngle_def minRadius_def maxRadius_def)


lemma run_init_ok: "poses_ok (run controller_init es)"
  by (rule run_ok) (rule controller_init_ok)

text \<open>
  C4: from a state whose rendered and target pose are within the clamps, every sequence
  of pointer, wheel and frame events, with deltas of any size, leaves the polar angle
  of both poses in [0.05, pi - 0.05] and the radius of both in [1, 20]. The statement
  holds for every sequence, so for every prefix of one: the bounds hold after each
  event.
\<close>

theorem C4_poses_stay_in_clamps:
  assumes "in_clamps (spherical s)" and "in_clamps (targetSpherical s)"
    and "\<forall>e \<in> set es. viewport_positive e"
  shows "0.05 \<le> phi (targetSpherical (run s es)) \<and> phi (targetSpherical (run s es)) \<le> pi - 0.05 \<and>
         0.05 \<le> phi (spherical (run s es)) \<and> phi (spherical (run s es)) \<le> pi - 0.05 \<and>
         1 \<le> radius (targetSpherical (run s es)) \<and> radius (targetSpherical (run s es)) \<le> 20 \<and>
         1 \<le> radius (spherical (run s es)) \<and> radius (spherical (run s es)) \<le> 20"
proof -
  from assms(1,2) have "poses_ok s" by (simp add: poses_ok_def)
  then have "poses_ok (run s es)" by (rule run_ok)
  then show ?thesis
    by (simp add: poses_ok_def in_clamps_def minPolarAngle_def maxPolarAngle_def
        minRadius_def maxRadius_def)
qed

theorem C4_poses_stay_in_clamps_witness:
  "in_clamps (spherical (at_rest 5 1 0)) \<and> in_clamps (targetSpherical (at_rest 5 1 0)) \<and>
   list_all viewport_positive
     [MouseDown 0 100 100, MouseMove 800 150 (-100000), Frame, Wheel 100000, Frame] \<and>
   phi (targetSpherical (run (at_rest 5 1 0)
     [MouseDown 0 100 100, MouseMove 800 150 (-100000), Frame, Wheel 100000, Frame])) \<le> pi - 0.05 \<and>
   radius (spherical (run (at_rest 5 1 0)
     [MouseDown 0 100 100, MouseMove 800 150 (-100000), Frame, Wheel 100000, Frame])) \<le> 20"
proof -
  have a: "in_clamps (spherical (at_rest 5 1 0))" "in_clamps (targetSpherical (at_rest 5 1 0))"
    using pi_ge_two
    by (simp_all add: at_rest_def in_clamps_def minPolarAngle_def maxPolarAngle_def
        minRadius_def maxRadius_def)
  have b: "\<forall>e \<in> set [MouseDown 0 100 100, MouseMove 800 150 (-100000), Frame, Wheel 100000, Frame].
      viewport_positive e"
    by simp
  from C4_poses_stay_in_clamps [OF a b] a b show ?thesis by simp
qed

section \<open>Rounding to binary64\<close>


lemma exponent64_ge: "- 1022 \<le> exponent64 z"
  by (simp add: exponent64_def)









section \<open>Damping\<close>


















section \<open>The handlers one by one\<close>

text \<open>
  C6: a press of the left button at \<open>(x0, y0)\<close> followed by a move to \<open>(x1, y1)\<close>, with
  a viewport of height \<open>H\<close>, takes \<open>(x1 - x0) * 2 * (pi / H)\<close> from the target azimuth,
  takes \<open>(y1 - y0) * 2 * (pi / H)\<close> from the target polar angle and clamps the result
  to [0.05, pi - 0.05], and leaves the target radius as it was; the release changes
  nothing of the target.
\<close>

theorem C6_drag_gesture:
  assumes "0 < H"
  shows "theta (targetSpherical (onMouseMove H x1 y1 (onMouseDown 0 x0 y0 s))) =
           theta (targetSpherical s) - (x1 - x0) * 2 * (pi / H) \<and>
         phi (targetSpherical (onMouseMove H x1 y1 (onMouseDown 0 x0 y0 s))) =
           max 0.05 (min (pi - 0.05) (phi (targetSpherical s) - (y1 - y0) * 2 * (pi / H))) \<and>
         radius (targetSpherical (onMouseMove H x1 y1 (onMouseDown 0 x0 y0 s))) =
           radius (targetSpherical s) \<and>
         targetSpherical (onMouseUp (onMouseMove H x1 y1 (onMouseDown 0 x0 y0 s))) =
           targetSpherical (onMouseMove H x1 y1 (onMouseDown 0 x0 y0 s))"
  by (simp add: onMouseMove_def onMouseDown_def onMouseUp_def Let_def rotationSpeed_def
      minPolarAngle_def maxPolarAngle_def)

theorem C6_drag_gesture_witness:
  "(0::real) < 800 \<and>
   theta (targetSpherical (onMouseMove 800 150 80 (onMouseDown 0 100 100 (at_rest 5 1 0)))) =
     - (pi / 8) \<and>
   phi (targetSpherical (onMouseMove 800 150 80 (onMouseDown 0 100 100 (at_rest 5 1 0)))) =
     max 0.05 (min (pi - 0.05) (1 + pi / 20)) \<and>
   radius (targetSpherical (onMouseMove 800 150 80 (onMouseDown 0 100 100 (at_rest 5 1 0)))) = 5"
proof -
  have h: "(0::real) < 800" by simp
  from C6_drag_gesture [OF h, of 150 80 100 100 "at_rest 5 1 0"] h
  show ?thesis by (simp add: at_rest_def)
qed

text \<open>
  C7: \<open>onMouseWheel\<close> sets the target radius to the clamp of
  \<open>radius + deltaY * 0.020\<close> into [1, 20], in every state. A positive \<open>deltaY\<close> does
  not decrease the target radius, in every state the controller reaches from its start
  by any events, and more generally in every state whose target radius is at most
  \<open>maxRadius\<close>. A wheel event of +100 followed by one of -500, from a target radius
  of at most 9, ends at \<open>minRadius\<close>.
\<close>

theorem C7_wheel:
  "radius (targetSpherical (onMouseWheel deltaY s)) =
     max 1 (min 20 (radius (targetSpherical s) + deltaY * 0.020)) \<and>
   (0 < deltaY \<longrightarrow>
      radius (targetSpherical (run controller_init es)) \<le>
        radius (targetSpherical (onMouseWheel deltaY (run controller_init es)))) \<and>
   (0 < deltaY \<and> radius (targetSpherical s) \<le> maxRadius \<longrightarrow>
      radius (targetSpherical s) \<le> radius (targetSpherical (onMouseWheel deltaY s))) \<and>
   (radius (targetSpherical s) \<le> 9 \<longrightarrow>
      radius (targetSpherical (onMouseWheel (- 500) (onMouseWheel 100 s))) = minRadius)"
proof -
  have "radius (targetSpherical (run controller_init es)) \<le> maxRadius"
    using run_init_ok [of es] by (simp add: poses_ok_def in_clamps_def)
  then show ?thesis
    by (simp add: onMouseWheel_def Let_def zoomSpeed_def minRadius_def maxRadius_def
        max_def min_def)
qed

theorem C7_wheel_witness:
  "(0::real) < 100 \<and> radius (targetSpherical (at_rest 5 1 0)) \<le> maxRadius \<and>
   radius (targetSpherical (at_rest 5 1 0)) \<le> radius (targetSpherical (onMouseWheel 100 (at_rest 5 1 0))) \<and>
   radius (targetSpherical (onMouseWheel 100 (at_rest 5 1 0))) = 7 \<and>
   radius (targetSpherical (run controller_init [Wheel 100])) \<le>
     radius (targetSpherical (onMouseWheel 100 (run controller_init [Wheel 100]))) \<and>
   radius (targetSpherical (at_rest 5 1 0)) \<le> 9 \<and>
   radius (targetSpherical (onMouseWheel (- 500) (onMouseWheel 100 (at_rest 5 1 0)))) = 1"
proof -
  have h: "(0::real) < 100 \<and> radius (targetSpherical (at_rest 5 1 0)) \<le> maxRadius"
    and k: "radius (targetSpherical (at_rest 5 1 0)) \<le> 9"
    by (simp_all add: at_rest_def maxRadius_def)
  from C7_wheel [of 100 "at_rest 5 1 0" "[Wheel 100]"] h k show ?thesis
    by (simp add: at_rest_def minRadius_def)
qed

text \<open>
  C8, as stated, fails: \<open>onMouseDown\<close> has no test of \<open>isDragging\<close>, so a second press
  of the left button during a drag moves the drag anchor, here from (100, 100) to
  (150, 80).
\<close>

theorem C8_repress_moves_anchor:
  "isDragging (onMouseDown 0 100 100 (at_rest 5 1 0)) \<and>
   onMouseDown 0 150 80 (onMouseDown 0 100 100 (at_rest 5 1 0)) \<noteq>
     onMouseDown 0 100 100 (at_rest 5 1 0) \<and>
   previousMousePosition (onMouseDown 0 150 80 (onMouseDown 0 100 100 (at_rest 5 1 0))) =
     \<lparr>pos_x = 150, pos_y = 80\<rparr> \<and>
   previousMousePosition (onMouseDown 0 100 100 (at_rest 5 1 0)) = \<lparr>pos_x = 100, pos_y = 100\<rparr>"
  by (simp add: onMouseDown_def at_rest_def)

text \<open>
  C8, amended: a call of \<open>onMouseDown\<close> during a drag leaves the drag flag set and
  both poses unchanged; with the left button it moves the drag anchor to the position
  of the event, with any other button it leaves the anchor too.
\<close>

theorem C8_repress_amended:
  assumes "isDragging s"
  shows "isDragging (onMouseDown button x y s) \<and>
         targetSpherical (onMouseDown button x y s) = targetSpherical s \<and>
         spherical (onMouseDown button x y s) = spherical s \<and>
         previousMousePosition (onMouseDown button x y s) =
           (if button = 0 then \<lparr>pos_x = x, pos_y = y\<rparr> else previousMousePosition s)"
  using assms by (simp add: onMouseDown_def)

theorem C8_repress_amended_witness:
  "isDragging (onMouseDown 0 100 100 (at_rest 5 1 0)) \<and>
   isDragging (onMouseDown 0 150 80 (onMouseDown 0 100 100 (at_rest 5 1 0))) \<and>
   targetSpherical (onMouseDown 0 150 80 (onMouseDown 0 100 100 (at_rest 5 1 0))) =
     \<lparr>radius = 5, phi = 1, theta = 0\<rparr> \<and>
   previousMousePosition (onMouseDown 0 150 80 (onMouseDown 0 100 100 (at_rest 5 1 0))) =
     \<lparr>pos_x = 150, pos_y = 80\<rparr>"
proof -
  have h: "isDragging (onMouseDown 0 100 100 (at_rest 5 1 0))"
    by (simp add: onMouseDown_def)
  from C8_repress_amended [OF h, of 0 150 80] h show ?thesis
    by (simp add: onMouseDown_def at_rest_def)
qed

section \<open>Calls of loadModel and their settlements\<close>

lemma loadModel_try_resolved:
  "loadModel_try u (Resolved g) s =
     (Inr (), s\<lparr>diamond := Some g, children := scene_add (Gltf g) (children s)\<rparr>)"
  by (simp add: loadModel_try_def try_catch_def js_bind_def await_def assign_diamond_def
      scene_add_js_def)

lemma loadModel_try_failed:
  "loadModel_try u (Failed e) s = (Inr (), s\<lparr>console := console s @ [(u, e)]\<rparr>)"
  by (simp add: loadModel_try_def try_catch_def js_bind_def await_def console_error_def)

lemma loadModel_try_returns: "fst (loadModel_try u r s) = Inr ()"
  by (cases r) (simp_all add: loadModel_try_resolved loadModel_try_failed)

lemma resume_resolved:
  assumes "map_of (suspended s) i = Some u"
  shows "loadModel_resume i (Resolved g) s =
     s\<lparr>suspended := filter (\<lambda>c. fst c \<noteq> i) (suspended s), diamond := Some g,
       children := scene_add (Gltf g) (children s),
       promises := promises s @ [(i, Fulfilled)]\<rparr>"
  using assms by (simp add: loadModel_resume_def loadModel_try_resolved promise_of_def)

lemma resume_failed:
  assumes "map_of (suspended s) i = Some u"
  shows "loadModel_resume i (Failed e) s =
     s\<lparr>suspended := filter (\<lambda>c. fst c \<noteq> i) (suspended s),
       console := console s @ [(u, e)],
       promises := promises s @ [(i, Fulfilled)]\<rparr>"
  using assms by (simp add: loadModel_resume_def loadModel_try_failed promise_of_def)

lemma resume_not_suspended:
  "map_of (suspended s) i = None \<Longrightarrow> loadModel_resume i r s = s"
  by (simp add: loadModel_resume_def)

lemma call_fields:
  "diamond (loadModel_call u s) = diamond s"
  "children (loadModel_call u s) =
     (case diamond s of None \<Rightarrow> children s | Some d \<Rightarrow> scene_remove (Gltf d) (children s))"
  "console (loadModel_call u s) = console s"
  "promises (loadModel_call u s) = promises s"
  "suspended (loadModel_call u s) = suspended s @ [(issued s, u)]"
  "issued (loadModel_call u s) = issued s + 1"
  by (simp_all add: loadModel_call_def Let_def split: option.splits)

lemma calls_named_call: "calls_named s \<Longrightarrow> calls_named (loadModel_call u s)"
  by (auto simp: calls_named_def call_fields)

lemma calls_named_resume: "calls_named s \<Longrightarrow> calls_named (loadModel_resume i r s)"
proof (cases "map_of (suspended s) i")
  case None
  assume "calls_named s"
  with None show ?thesis by (simp add: resume_not_suspended)
next
  case (Some u)
  assume "calls_named s"
  with Some show ?thesis
    by (cases r) (auto simp: resume_resolved resume_failed calls_named_def)
qed

lemma calls_named_handle: "calls_named s \<Longrightarrow> calls_named (app_handle s ev)"
  by (cases ev) (simp_all add: calls_named_call calls_named_resume)

lemma calls_named_run: "calls_named s \<Longrightarrow> calls_named (app_run s es)"
  by (induction es arbitrary: s) (simp_all add: app_run_def calls_named_handle)

lemma calls_named_reachable: "calls_named (app_run app_init es)"
  by (rule calls_named_run) (simp add: calls_named_def app_init_def)

lemma fresh_call_lookup:
  assumes "calls_named s"
  shows "map_of (suspended (loadModel_call u s)) (issued s) = Some u"
proof -
  have "issued s \<notin> fst ` set (suspended s)"
    using assms by (auto simp: calls_named_def)
  then have "map_of (suspended s) (issued s) = None"
    by (simp add: map_of_eq_None_iff)
  then show ?thesis by (simp add: call_fields map_add_def)
qed

lemma fresh_call_filter:
  assumes "calls_named s"
  shows "filter (\<lambda>c. fst c \<noteq> issued s) (suspended (loadModel_call u s)) = suspended s"
proof -
  have "\<forall>c \<in> set (suspended s). fst c \<noteq> issued s"
    using assms by (auto simp: calls_named_def)
  then show ?thesis by (simp add: call_fields)
qed


section \<open>Overlapping calls of loadModel\<close>

text \<open>
  C1, as stated, fails: \<open>loadModel\<close> keeps no record of which call is the latest, and
  every settled load assigns \<open>diamond\<close> and is added to the scene. With the call for
  ''A'' made before the call for ''B'' and the load for ''B'' settling first, the load
  for ''A'' (group 10) ends as \<open>diamond\<close> and is in the scene; the one for ''B''
  (group 11) is not \<open>diamond\<close>.
\<close>

theorem C1_earlier_request_wins:
  "diamond (app_run app_init
      [LoadModel ''A'', LoadModel ''B'', Settle 1 (Resolved 11), Settle 0 (Resolved 10)]) = Some 10 \<and>
   diamond (app_run app_init
      [LoadModel ''A'', LoadModel ''B'', Settle 1 (Resolved 11), Settle 0 (Resolved 10)]) \<noteq> Some 11 \<and>
   Gltf 10 \<in> set (children (app_run app_init
      [LoadModel ''A'', LoadModel ''B'', Settle 1 (Resolved 11), Settle 0 (Resolved 10)]))"
  by (simp add: app_eval)

lemma two_calls_suspended:
  "suspended (loadModel_call b (loadModel_call a s)) =
     suspended s @ [(issued s, a), (issued s + 1, b)]"
  by (simp add: call_fields)

lemma lookup_suspended:
  "(i, u) \<in> set cs \<Longrightarrow> \<exists>v. map_of cs i = Some v"
  by (cases "map_of cs i") (auto simp: map_of_eq_None_iff intro: rev_image_eqI)

lemma resume_resolved_fields:
  assumes "(i, u) \<in> set (suspended s)"
  shows "diamond (loadModel_resume i (Resolved g) s) = Some g"
    and "children (loadModel_resume i (Resolved g) s) = scene_add (Gltf g) (children s)"
    and "suspended (loadModel_resume i (Resolved g) s) = filter (\<lambda>c. fst c \<noteq> i) (suspended s)"
proof -
  from lookup_suspended [OF assms] obtain v where "map_of (suspended s) i = Some v" ..
  then show "diamond (loadModel_resume i (Resolved g) s) = Some g"
    and "children (loadModel_resume i (Resolved g) s) = scene_add (Gltf g) (children s)"
    and "suspended (loadModel_resume i (Resolved g) s) = filter (\<lambda>c. fst c \<noteq> i) (suspended s)"
    by (simp_all add: resume_resolved)
qed

lemma scene_add_mem: "x \<in> set (scene_add x cs)"
  by (simp add: scene_add_def)

text \<open>
  C1, amended: after \<open>loadModel(a)\<close> and then \<open>loadModel(b)\<close>, called from any state
  before either load settles, and both loads succeeding, \<open>diamond\<close> is the group of
  the load that settled last, and that group is in the scene: the group loaded for
  \<open>b\<close> when the load for \<open>a\<close> settles first, the group loaded for \<open>a\<close> when the load
  for \<open>b\<close> settles first.
\<close>

theorem C1_last_completion_wins:
  "diamond (app_run s [LoadModel a, LoadModel b,
      Settle (issued s) (Resolved ga), Settle (issued s + 1) (Resolved gb)]) = Some gb \<and>
   Gltf gb \<in> set (children (app_run s [LoadModel a, LoadModel b,
      Settle (issued s) (Resolved ga), Settle (issued s + 1) (Resolved gb)])) \<and>
   diamond (app_run s [LoadModel a, LoadModel b,
      Settle (issued s + 1) (Resolved gb), Settle (issued s) (Resolved ga)]) = Some ga \<and>
   Gltf ga \<in> set (children (app_run s [LoadModel a, LoadModel b,
      Settle (issued s + 1) (Resolved gb), Settle (issued s) (Resolved ga)]))"
proof -
  let ?s2 = "loadModel_call b (loadModel_call a s)"
  let ?i = "issued s" and ?j = "issued s + 1"
  have i2: "(?i, a) \<in> set (suspended ?s2)" and j2: "(?j, b) \<in> set (suspended ?s2)"
    by (simp_all add: two_calls_suspended)
  have j3: "(?j, b) \<in> set (suspended (loadModel_resume ?i (Resolved ga) ?s2))"
    unfolding resume_resolved_fields(3) [OF i2] using j2 by simp
  have i3: "(?i, a) \<in> set (suspended (loadModel_resume ?j (Resolved gb) ?s2))"
    unfolding resume_resolved_fields(3) [OF j2] using i2 by simp
  have ab: "app_run s [LoadModel a, LoadModel b, Settle ?i (Resolved ga), Settle ?j (Resolved gb)] =
      loadModel_resume ?j (Resolved gb) (loadModel_resume ?i (Resolved ga) ?s2)"
    and ba: "app_run s [LoadModel a, LoadModel b, Settle ?j (Resolved gb), Settle ?i (Resolved ga)] =
      loadModel_resume ?i (Resolved ga) (loadModel_resume ?j (Resolved gb) ?s2)"
    by (simp_all add: app_run_def)
  show ?thesis
    unfolding ab ba resume_resolved_fields(1,2) [OF j3] resume_resolved_fields(1,2) [OF i3]
    by (simp add: scene_add_mem)
qed

section \<open>A load that fails\<close>

text \<open>
  C2, as stated, fails: \<open>loadModel\<close> removes \<open>diamond\<close> from the scene before it
  starts the load. With group 10 in the scene, a call whose load fails leaves the scene
  with the plane only, while \<open>diamond\<close> still is group 10.
\<close>

theorem C2_failed_load_detaches:
  "children (app_run app_init [LoadModel ''A'', Settle 0 (Resolved 10)]) = [Plane, Gltf 10] \<and>
   children (app_run app_init [LoadModel ''A'', Settle 0 (Resolved 10),
      LoadModel ''X'', Settle 1 (Failed ''404'')]) = [Plane] \<and>
   diamond (app_run app_init [LoadModel ''A'', Settle 0 (Resolved 10),
      LoadModel ''X'', Settle 1 (Failed ''404'')]) = Some 10"
  by (simp add: app_eval)

lemma app_run_append: "app_run s (es @ fs) = app_run (app_run s es) fs"
  by (simp add: app_run_def)

text \<open>
  C2, amended: a call of \<open>loadModel\<close>, made in any state the program can reach, whose
  load fails before anything else happens leaves \<open>diamond\<close> as it was, leaves the
  scene as it was except that the group \<open>diamond\<close> named (if any) has been removed
  from it by the call, and adds exactly one entry, for this url and error, to the
  console. The failure itself, whenever it arrives for a suspended call, changes
  neither \<open>diamond\<close> nor the scene and adds that one entry.
\<close>

theorem C2_failed_load:
  "diamond (app_run app_init (es @ [LoadModel modelUrl, Settle (issued (app_run app_init es)) (Failed e)]))
     = diamond (app_run app_init es) \<and>
   children (app_run app_init (es @ [LoadModel modelUrl, Settle (issued (app_run app_init es)) (Failed e)]))
     = (case diamond (app_run app_init es) of
          None \<Rightarrow> children (app_run app_init es)
        | Some d \<Rightarrow> remove1 (Gltf d) (children (app_run app_init es))) \<and>
   console (app_run app_init (es @ [LoadModel modelUrl, Settle (issued (app_run app_init es)) (Failed e)]))
     = console (app_run app_init es) @ [(modelUrl, e)] \<and>
   (map_of (suspended s) i = Some modelUrl \<longrightarrow>
      diamond (loadModel_resume i (Failed e) s) = diamond s \<and>
      children (loadModel_resume i (Failed e) s) = children s \<and>
      console (loadModel_resume i (Failed e) s) = console s @ [(modelUrl, e)])"
proof -
  let ?s = "app_run app_init es"
  have n: "calls_named ?s" by (rule calls_named_reachable)
  have "app_run app_init (es @ [LoadModel modelUrl, Settle (issued ?s) (Failed e)]) =
        loadModel_resume (issued ?s) (Failed e) (loadModel_call modelUrl ?s)"
    by (simp add: app_run_append) (simp add: app_run_def)
  then show ?thesis
    by (simp add: resume_failed [OF fresh_call_lookup [OF n]] resume_failed call_fields
        scene_remove_def split: option.splits)
qed

theorem C2_failed_load_witness:
  "map_of (suspended (app_run app_init [LoadModel ''A'', Settle 0 (Resolved 10), LoadModel ''X'']))
      1 = Some ''X'' \<and>
   children (loadModel_resume 1 (Failed ''404'')
      (app_run app_init [LoadModel ''A'', Settle 0 (Resolved 10), LoadModel ''X''])) = [Plane] \<and>
   console (loadModel_resume 1 (Failed ''404'')
      (app_run app_init [LoadModel ''A'', Settle 0 (Resolved 10), LoadModel ''X''])) =
      [(''X'', ''404'')]"
proof -
  have h: "map_of (suspended (app_run app_init [LoadModel ''A'', Settle 0 (Resolved 10), LoadModel ''X'']))
      1 = Some ''X''"
    by (simp add: app_eval)
  have c: "children (app_run app_init [LoadModel ''A'', Settle 0 (Resolved 10), LoadModel ''X'']) = [Plane]"
    "console (app_run app_init [LoadModel ''A'', Settle 0 (Resolved 10), LoadModel ''X'']) = []"
    by (simp_all add: app_eval)
  from C2_failed_load [of "[]" "''X''" "''404''"
      "app_run app_init [LoadModel ''A'', Settle 0 (Resolved 10), LoadModel ''X'']" 1] h c
  show ?thesis by simp
qed

section \<open>Models in the scene\<close>

text \<open>
  When \<open>loadModel\<close> is called only while no earlier call is suspended, the scene
  never holds more than one loaded model.
\<close>

lemma filter_gltf_remove1:
  "filter is_gltf (remove1 (Gltf g) cs) = remove1 (Gltf g) (filter is_gltf cs)"
  by (induction cs) auto

lemma one_model_call:
  assumes "one_model s" and "suspended s = []"
  shows "one_model (loadModel_call u s)"
  using assms
  by (auto simp: one_model_def call_fields models_attached_def scene_remove_def
      filter_gltf_remove1 split: option.splits)

lemma one_model_resume:
  assumes "one_model s"
  shows "one_model (loadModel_resume i r s)"
proof (cases "map_of (suspended s) i")
  case None
  with assms show ?thesis by (simp add: resume_not_suspended)
next
  case (Some u)
  then obtain c where c: "suspended s = [c]" and m: "models_attached s = []"
    using assms by (auto simp: one_model_def split: list.splits)
  from Some c have i: "fst c = i" by (cases c) (auto split: if_splits)
  show ?thesis
  proof (cases r)
    case (Resolved g)
    with Some c i m show ?thesis
      by (simp add: resume_resolved one_model_def models_attached_def scene_add_def
          filter_gltf_remove1)
  next
    case (Failed e)
    with Some c i m show ?thesis
      by (simp add: resume_failed one_model_def models_attached_def)
  qed
qed

lemma sequential_one_model:
  "one_model s \<Longrightarrow> sequential s es \<Longrightarrow> one_model (app_run s es)"
proof (induction es arbitrary: s)
  case Nil
  then show ?case by (simp add: app_run_def)
next
  case (Cons ev es)
  then show ?case
    by (cases ev) (simp_all add: app_run_def one_model_call one_model_resume)
qed

lemma one_model_length: "one_model s \<Longrightarrow> length (models_attached s) \<le> 1"
  by (auto simp: one_model_def split: list.splits option.splits)

lemma sequential_at_most_one:
  "sequential app_init es \<Longrightarrow> length (models_attached (app_run app_init es)) \<le> 1"
  by (rule one_model_length, rule sequential_one_model)
    (simp_all add: one_model_def app_init_def models_attached_def)

text \<open>
  C3: at most one loaded model is attached to the scene at any instant. The code does
  not keep this: the model is removed when \<open>loadModel\<close> is called and the new one added
  when its load settles, so two calls before either load settles, both succeeding,
  leave two models in the scene (here groups 10 and 11). Calls that do not overlap
  keep the bound (\<open>sequential_at_most_one\<close>).
\<close>

theorem C3_two_models_attached:
  "children (app_run app_init
      [LoadModel ''/models/diamond.glb'', LoadModel ''/models/dflat.glb'',
       Settle 0 (Resolved 10), Settle 1 (Resolved 11)]) = [Plane, Gltf 10, Gltf 11] \<and>
   length (models_attached (app_run app_init
      [LoadModel ''/models/diamond.glb'', LoadModel ''/models/dflat.glb'',
       Settle 0 (Resolved 10), Settle 1 (Resolved 11)])) = 2"
  by (simp add: app_eval)

section \<open>The promise of loadModel\<close>

lemma resume_promises:
  "map_of (suspended s) i = Some u \<Longrightarrow>
     promises (loadModel_resume i r s) = promises s @ [(i, Fulfilled)]"
  by (cases r) (simp_all add: resume_resolved resume_failed)

lemma all_fulfilled_handle: "all_fulfilled s \<Longrightarrow> all_fulfilled (app_handle s ev)"
proof (cases ev)
  case (LoadModel u)
  assume "all_fulfilled s"
  with LoadModel show ?thesis by (simp add: all_fulfilled_def call_fields)
next
  case (Settle i r)
  assume a: "all_fulfilled s"
  show ?thesis
  proof (cases "map_of (suspended s) i")
    case None
    with a Settle show ?thesis by (simp add: resume_not_suspended)
  next
    case (Some u)
    with a Settle show ?thesis by (simp add: all_fulfilled_def resume_promises)
  qed
qed

lemma all_fulfilled_run: "all_fulfilled s \<Longrightarrow> all_fulfilled (app_run s es)"
  by (induction es arbitrary: s) (simp_all add: app_run_def all_fulfilled_handle)

text \<open>
  C10: whatever the load settles with, the \<open>try\<close> statement of \<open>loadModel\<close> completes
  normally, so the promise of the call is fulfilled when the load settles; a failed
  load is caught and changes the state by one console entry (url and error) only, in
  the \<open>try\<close> statement and so in the suspended call that resumes with the failure, which
  leaves \<open>diamond\<close> and the scene as they were; and in every state the program reaches
  from its start no promise returned by \<open>loadModel\<close> is rejected.
\<close>

theorem C10_loadModel_fulfils:
  "fst (loadModel_try modelUrl r s) = Inr () \<and>
   snd (loadModel_try modelUrl (Failed e) s) = s\<lparr>console := console s @ [(modelUrl, e)]\<rparr> \<and>
   (map_of (suspended s) i = Some modelUrl \<longrightarrow>
      promises (loadModel_resume i r s) = promises s @ [(i, Fulfilled)] \<and>
      loadModel_resume i (Failed e) s =
        s\<lparr>suspended := filter (\<lambda>c. fst c \<noteq> i) (suspended s),
          console := console s @ [(modelUrl, e)],
          promises := promises s @ [(i, Fulfilled)]\<rparr> \<and>
      console (loadModel_resume i (Failed e) s) = console s @ [(modelUrl, e)] \<and>
      diamond (loadModel_resume i (Failed e) s) = diamond s \<and>
      children (loadModel_resume i (Failed e) s) = children s) \<and>
   (\<forall>p \<in> set (promises (app_run app_init es)). snd p = Fulfilled)"
proof -
  have "all_fulfilled app_init" by (simp add: all_fulfilled_def app_init_def)
  then have "all_fulfilled (app_run app_init es)" by (rule all_fulfilled_run)
  then show ?thesis
    by (simp add: loadModel_try_returns loadModel_try_failed resume_promises resume_failed
        all_fulfilled_def list_all_iff)
qed

theorem C10_loadModel_fulfils_witness:
  "map_of (suspended (loadModel_call ''/models/none.glb'' app_init)) 0 = Some ''/models/none.glb'' \<and>
   promises (loadModel_resume 0 (Failed ''404'') (loadModel_call ''/models/none.glb'' app_init)) =
     [(0, Fulfilled)] \<and>
   console (loadModel_resume 0 (Failed ''404'') (loadModel_call ''/models/none.glb'' app_init)) =
     [(''/models/none.glb'', ''404'')] \<and>
   diamond (loadModel_resume 0 (Failed ''404'') (loadModel_call ''/models/none.glb'' app_init)) =
     None \<and>
   children (loadModel_resume 0 (Failed ''404'') (loadModel_call ''/models/none.glb'' app_init)) =
     [Plane] \<and>
   (0, Fulfilled) \<in> set (promises (app_run app_init
      [LoadModel ''/models/none.glb'', Settle 0 (Failed ''404'')])) \<and>
   snd (0::nat, Fulfilled) = Fulfilled \<and>
   console (snd (loadModel_try ''/models/none.glb'' (Failed ''404'') app_init)) =
     [(''/models/none.glb'', ''404'')]"
proof -
  have h: "map_of (suspended (loadModel_call ''/models/none.glb'' app_init)) 0 = Some ''/models/none.glb''"
    by (simp add: app_eval)
  have m: "(0, Fulfilled) \<in> set (promises (app_run app_init
      [LoadModel ''/models/none.glb'', Settle 0 (Failed ''404'')]))"
    by (simp add: app_eval)
  have p: "promises (loadModel_call ''/models/none.glb'' app_init) = []"
    "console (loadModel_call ''/models/none.glb'' app_init) = []"
    "diamond (loadModel_call ''/models/none.glb'' app_init) = None"
    "children (loadModel_call ''/models/none.glb'' app_init) = [Plane]"
    "console app_init = []"
    by (simp_all add: app_eval)
  from C10_loadModel_fulfils [of "''/models/none.glb''" "Failed ''404''"
      "loadModel_call ''/models/none.glb'' app_init" "''404''" 0
      "[LoadModel ''/models/none.glb'', Settle 0 (Failed ''404'')]"] h m p
  show ?thesis by (simp add: loadModel_try_failed)
qed

end
